theory Spec2Isabelle
  imports Main
begin

section \<open>Calendar values of the standard library\<close>

text \<open>
  The program works on naive \<^verbatim>\<open>datetime\<close> objects: seven fields, no time zone.
  A \<^verbatim>\<open>timedelta\<close> is kept as its total number of microseconds.
\<close>

record datetime =
  year :: nat
  month :: nat
  day :: nat
  hour :: nat
  minute :: nat
  second :: nat
  microsecond :: nat

type_synonym timedelta = int

definition is_leap :: "nat \<Rightarrow> bool" where
  "is_leap y = (y mod 4 = 0 \<and> (y mod 100 \<noteq> 0 \<or> y mod 400 = 0))"

definition days_in_month :: "nat \<Rightarrow> nat \<Rightarrow> nat" where
  "days_in_month y m =
     (if m = 2 then (if is_leap y then 29 else 28)
      else if m = 4 \<or> m = 6 \<or> m = 9 \<or> m = 11 then 30 else 31)"

definition days_before_year :: "nat \<Rightarrow> nat" where
  "days_before_year y = (let p = y - 1 in p * 365 + p div 4 - p div 100 + p div 400)"

definition days_before_month :: "nat \<Rightarrow> nat \<Rightarrow> nat" where
  "days_before_month y m =
     (if m = 1 then 0 else if m = 2 then 31 else if m = 3 then 59 else if m = 4 then 90
      else if m = 5 then 120 else if m = 6 then 151 else if m = 7 then 181
      else if m = 8 then 212 else if m = 9 then 243 else if m = 10 then 273
      else if m = 11 then 304 else 334)
     + (if m > 2 \<and> is_leap y then 1 else 0)"

definition ymd2ord :: "nat \<Rightarrow> nat \<Rightarrow> nat \<Rightarrow> nat" where
  "ymd2ord y m d = days_before_year y + days_before_month y m + d"

text \<open>What the constructor \<^verbatim>\<open>datetime(...)\<close> accepts; anything else is a ValueError.\<close>

definition valid_datetime :: "datetime \<Rightarrow> bool" where
  "valid_datetime t =
     (1 \<le> year t \<and> year t \<le> 9999 \<and> 1 \<le> month t \<and> month t \<le> 12 \<and>
      1 \<le> day t \<and> day t \<le> days_in_month (year t) (month t) \<and>
      hour t < 24 \<and> minute t < 60 \<and> second t < 60 \<and> microsecond t < 1000000)"

definition mk_datetime :: "nat \<Rightarrow> nat \<Rightarrow> nat \<Rightarrow> nat \<Rightarrow> nat \<Rightarrow> nat \<Rightarrow> nat \<Rightarrow> datetime option" where
  "mk_datetime y mo d h mi s us =
     (let t = \<lparr>year = y, month = mo, day = d, hour = h, minute = mi, second = s, microsecond = us\<rparr>
      in if valid_datetime t then Some t else None)"

text \<open>Comparison of two datetimes goes field by field, most significant first.\<close>

fun lex_less :: "nat list \<Rightarrow> nat list \<Rightarrow> bool" where
  "lex_less (x # xs) (y # ys) = (x < y \<or> (x = y \<and> lex_less xs ys))"
| "lex_less _ _ = False"

definition dt_fields :: "datetime \<Rightarrow> nat list" where
  "dt_fields t = [year t, month t, day t, hour t, minute t, second t, microsecond t]"

definition dt_less :: "datetime \<Rightarrow> datetime \<Rightarrow> bool" where
  "dt_less a b = lex_less (dt_fields a) (dt_fields b)"

text \<open>Subtraction goes through the proleptic Gregorian ordinal of the date.\<close>

definition to_us :: "datetime \<Rightarrow> int" where
  "to_us t =
     (((int (ymd2ord (year t) (month t) (day t)) * 24 + int (hour t)) * 60 + int (minute t)) * 60
        + int (second t)) * 1000000 + int (microsecond t)"

definition dt_sub :: "datetime \<Rightarrow> datetime \<Rightarrow> timedelta" where
  "dt_sub a b = to_us a - to_us b"

definition minutes :: "int \<Rightarrow> timedelta" where
  "minutes n = n * 60000000"

definition days :: "int \<Rightarrow> timedelta" where
  "days n = n * 86400000000"

section \<open>Parsing and printing with the format \<^verbatim>\<open>%Y-%m-%d %H:%M\<close>\<close>

text \<open>
  \<^verbatim>\<open>datetime.strptime(s, DATETIME_FORMAT)\<close> turns the format into the regular expression
  \<^verbatim>\<open>(\d\d\d\d)-(1[0-2]|0[1-9]|[1-9])-(3[0-1]|[1-2]\d|0[1-9]|[1-9]| [1-9])\s+(2[0-3]|[0-1]\d|\d):([0-5]\d|\d)\<close>,
  takes its first match at the start of the string, refuses a match that does not reach the
  end of the string, and hands the numbers to the constructor. Each group below lists its
  matches in the order the alternatives are tried. Characters are code points below 256.
\<close>

definition digit_in :: "char \<Rightarrow> nat \<Rightarrow> nat \<Rightarrow> bool" where
  "digit_in c lo hi = (48 + lo \<le> (of_char c :: nat) \<and> (of_char c :: nat) \<le> 48 + hi)"

definition digit_val :: "char \<Rightarrow> nat" where
  "digit_val c = of_char c - 48"

definition is_space :: "char \<Rightarrow> bool" where
  "is_space c = (let n = (of_char c :: nat) in
     (9 \<le> n \<and> n \<le> 13) \<or> (28 \<le> n \<and> n \<le> 32) \<or> n = 133 \<or> n = 160)"

definition two_digits :: "nat \<Rightarrow> nat \<Rightarrow> nat \<Rightarrow> nat \<Rightarrow> string \<Rightarrow> (nat \<times> string) list" where
  "two_digits lo1 hi1 lo2 hi2 s =
     (case s of a # b # r \<Rightarrow>
        if digit_in a lo1 hi1 \<and> digit_in b lo2 hi2 then [(10 * digit_val a + digit_val b, r)] else []
      | _ \<Rightarrow> [])"

definition one_digit :: "nat \<Rightarrow> nat \<Rightarrow> string \<Rightarrow> (nat \<times> string) list" where
  "one_digit lo hi s =
     (case s of a # r \<Rightarrow> if digit_in a lo hi then [(digit_val a, r)] else [] | _ \<Rightarrow> [])"

definition lit :: "char \<Rightarrow> string \<Rightarrow> string list" where
  "lit c s = (case s of a # r \<Rightarrow> if a = c then [r] else [] | _ \<Rightarrow> [])"

definition re_year :: "string \<Rightarrow> (nat \<times> string) list" where
  "re_year s =
     (case s of a # b # c # d # r \<Rightarrow>
        if digit_in a 0 9 \<and> digit_in b 0 9 \<and> digit_in c 0 9 \<and> digit_in d 0 9
        then [(1000 * digit_val a + 100 * digit_val b + 10 * digit_val c + digit_val d, r)]
        else []
      | _ \<Rightarrow> [])"

definition re_month :: "string \<Rightarrow> (nat \<times> string) list" where
  "re_month s = two_digits 1 1 0 2 s @ two_digits 0 0 1 9 s @ one_digit 1 9 s"

definition re_day :: "string \<Rightarrow> (nat \<times> string) list" where
  "re_day s =
     two_digits 3 3 0 1 s @ two_digits 1 2 0 9 s @ two_digits 0 0 1 9 s @ one_digit 1 9 s
     @ concat (map (one_digit 1 9) (lit CHR '' '' s))"

definition re_hour :: "string \<Rightarrow> (nat \<times> string) list" where
  "re_hour s = two_digits 2 2 0 3 s @ two_digits 0 1 0 9 s @ one_digit 0 9 s"

definition re_minute :: "string \<Rightarrow> (nat \<times> string) list" where
  "re_minute s = two_digits 0 5 0 9 s @ one_digit 0 9 s"

text \<open>\<^verbatim>\<open>\s+\<close> is greedy: the longest run first, then shorter ones, never the empty one.\<close>

fun re_spaces :: "string \<Rightarrow> string list" where
  "re_spaces [] = []"
| "re_spaces (c # r) = (if is_space c then re_spaces r @ [r] else [])"

definition re_format :: "string \<Rightarrow> ((nat \<times> nat \<times> nat \<times> nat \<times> nat) \<times> string) list" where
  "re_format s =
     [((y, mo, d, h, mi), r9).
        (y, r1) \<leftarrow> re_year s, r2 \<leftarrow> lit CHR ''-'' r1,
        (mo, r3) \<leftarrow> re_month r2, r4 \<leftarrow> lit CHR ''-'' r3,
        (d, r5) \<leftarrow> re_day r4, r6 \<leftarrow> re_spaces r5,
        (h, r7) \<leftarrow> re_hour r6, r8 \<leftarrow> lit CHR '':'' r7,
        (mi, r9) \<leftarrow> re_minute r8]"

text \<open>\<open>None\<close> stands for the ValueError that \<^verbatim>\<open>strptime\<close> raises.\<close>

definition strptime :: "string \<Rightarrow> datetime option" where
  "strptime s =
     (case re_format s of
        [] \<Rightarrow> None
      | ((y, mo, d, h, mi), rest) # _ \<Rightarrow>
          if rest \<noteq> [] then None else mk_datetime y mo d h mi 0 0)"

section \<open>Tasks and the filter\<close>

text \<open>
  A row of the table \<^verbatim>\<open>tasks\<close>, in the column order of \<^verbatim>\<open>get_tasks\<close>. The column
  \<^verbatim>\<open>completed\<close> is an integer: the program writes 0 and 1.
\<close>

record task =
  task_id :: int
  name :: string
  deadline :: string
  notify_time :: string
  assigned_by :: string
  designation :: string
  priority :: string
  completed :: int

text \<open>
  The exceptions that leave a function of the program: the ValueError of
  \<^verbatim>\<open>strptime\<close>, and whatever the notification sink raises.
\<close>

datatype exn = ValueError | SinkFailure

text \<open>The loop of the nearest-deadline branch, with its accumulator \<^verbatim>\<open>filtered\<close>.\<close>

fun nearest_loop :: "datetime \<Rightarrow> task list \<Rightarrow> task list \<Rightarrow> exn + task list" where
  "nearest_loop now filtered [] = Inr filtered"
| "nearest_loop now filtered (t # ts) =
     (if completed t = 0 then
        (case strptime (deadline t) of
           None \<Rightarrow> Inl ValueError
         | Some deadline_dt \<Rightarrow>
             if dt_sub deadline_dt now < days 1
             then nearest_loop now (filtered @ [t]) ts
             else nearest_loop now filtered ts)
      else nearest_loop now filtered ts)"

text \<open>\<^verbatim>\<open>filter_tasks(tasks, filter_option)\<close>; \<open>now\<close> is the clock value it reads first.\<close>

definition filter_tasks :: "datetime \<Rightarrow> task list \<Rightarrow> string \<Rightarrow> exn + task list" where
  "filter_tasks now tasks filter_option =
     (if filter_option = ''View Completed Tasks'' then
        Inr (filter (\<lambda>t. completed t = 1) tasks)
      else if filter_option = ''View Nearest Deadline Tasks (within 1 day)'' then
        nearest_loop now [] tasks
      else Inr tasks)"

text \<open>
  The nearest-deadline view in the words of the specification: not completed, and the
  deadline less than 24 hours after \<open>now\<close>.
\<close>

definition nearest_deadline_spec :: "datetime \<Rightarrow> task \<Rightarrow> bool" where
  "nearest_deadline_spec now t =
     (completed t = 0 \<and>
      (case strptime (deadline t) of None \<Rightarrow> False | Some d \<Rightarrow> dt_sub d now < days 1))"

section \<open>The task store\<close>

text \<open>
  The table \<^verbatim>\<open>tasks\<close> of the database: its rows in retrieval order, and the counter
  behind \<^verbatim>\<open>INTEGER PRIMARY KEY AUTOINCREMENT\<close> (the largest id handed out so far).
\<close>

record store =
  rows :: "task list"
  last_id :: int

definition add_task :: "store \<Rightarrow> string \<Rightarrow> string \<Rightarrow> string \<Rightarrow> string \<Rightarrow> string \<Rightarrow> string \<Rightarrow> store" where
  "add_task db nm dl nt ab dg pr =
     \<lparr>rows = rows db @
        [\<lparr>task_id = last_id db + 1, name = nm, deadline = dl, notify_time = nt,
          assigned_by = ab, designation = dg, priority = pr, completed = 0\<rparr>],
      last_id = last_id db + 1\<rparr>"

definition get_tasks :: "store \<Rightarrow> task list" where
  "get_tasks db = rows db"

definition update_task ::
  "store \<Rightarrow> int \<Rightarrow> string \<Rightarrow> string \<Rightarrow> string \<Rightarrow> string \<Rightarrow> string \<Rightarrow> string \<Rightarrow> int \<Rightarrow> store" where
  "update_task db tid nm dl nt ab dg pr c =
     db\<lparr>rows := map (\<lambda>t. if task_id t = tid
                          then \<lparr>task_id = tid, name = nm, deadline = dl, notify_time = nt,
                                assigned_by = ab, designation = dg, priority = pr, completed = c\<rparr>
                          else t) (rows db)\<rparr>"

definition delete_task :: "store \<Rightarrow> int \<Rightarrow> store" where
  "delete_task db tid = db\<lparr>rows := filter (\<lambda>t. task_id t \<noteq> tid) (rows db)\<rparr>"

section \<open>The deadline check\<close>

text \<open>
  What \<^verbatim>\<open>check_deadlines\<close> does to the outside: a call of \<^verbatim>\<open>notification.notify\<close>
  with its title, message and timeout, and the messages it shows with \<^verbatim>\<open>st.info\<close> and
  \<^verbatim>\<open>st.warning\<close>.
\<close>

datatype effect =
  Notify string string nat
| StInfo string
| StWarning string

text \<open>
  The notification sink is outside the program and may raise. It is a parameter: the
  calls that return normally. A call that raises leaves \<^verbatim>\<open>check_deadlines\<close> as
  \<open>SinkFailure\<close>, since nothing in the program catches it.
\<close>

type_synonym sink = "string \<Rightarrow> string \<Rightarrow> nat \<Rightarrow> bool"

text \<open>A piece of the run: the effects so far, and the exception that ended it, if any.\<close>

type_synonym run = "effect list \<times> exn option"

definition notify :: "sink \<Rightarrow> string \<Rightarrow> string \<Rightarrow> nat \<Rightarrow> run" where
  "notify snk title message timeout =
     ([Notify title message timeout],
      if snk title message timeout then None else Some SinkFailure)"

definition and_then :: "run \<Rightarrow> run \<Rightarrow> run" where
  "and_then a b = (case snd a of Some e \<Rightarrow> a | None \<Rightarrow> (fst a @ fst b, snd b))"

definition skip :: run where
  "skip = ([], None)"

definition epoch :: datetime where
  "epoch = \<lparr>year = 1970, month = 1, day = 1, hour = 0, minute = 0, second = 0, microsecond = 0\<rparr>"

definition task_msg :: "string \<Rightarrow> string \<Rightarrow> string" where
  "task_msg nm what = ''Task '' @ [CHR 0x27] @ nm @ [CHR 0x27] @ what"

text \<open>The body of the loop, for one row.\<close>

definition check_task :: "sink \<Rightarrow> datetime \<Rightarrow> task \<Rightarrow> run" where
  "check_task snk now t =
     (if completed t \<noteq> 0 then skip
      else case strptime (deadline t) of
        None \<Rightarrow> ([], Some ValueError)
      | Some deadline_dt \<Rightarrow>
        (case strptime (notify_time t) of
           None \<Rightarrow> ([], Some ValueError)
         | Some notify_dt \<Rightarrow>
             and_then
               (if \<not> dt_less now notify_dt \<and> dt_less epoch notify_dt then
                  and_then
                    (notify snk ''Task Notification''
                       (task_msg (name t) '' notification time reached!'') 10)
                    ([StInfo (task_msg (name t) '' notification time reached!'')], None)
                else skip)
               (if dt_less deadline_dt now then
                  and_then
                    (notify snk ''Task Overdue!'' (task_msg (name t) '' is overdue!'') 10)
                    ([StWarning (task_msg (name t) '' is overdue!'')], None)
                else if dt_sub deadline_dt now < minutes 30 then
                  and_then
                    (notify snk ''Task Deadline Approaching''
                       (task_msg (name t) '' deadline is approaching!'') 10)
                    ([StInfo (task_msg (name t) '' deadline is approaching!'')], None)
                else skip)))"

text \<open>
  The loop over the rows. The trace has one entry for each row the loop reached: the
  effects of that iteration. An exception ends the loop.
\<close>

fun check_loop :: "sink \<Rightarrow> datetime \<Rightarrow> task list \<Rightarrow> effect list list \<times> exn option" where
  "check_loop snk now [] = ([], None)"
| "check_loop snk now (t # ts) =
     (case check_task snk now t of
        (es, Some e) \<Rightarrow> ([es], Some e)
      | (es, None) \<Rightarrow> (case check_loop snk now ts of (tr, r) \<Rightarrow> (es # tr, r)))"

text \<open>\<^verbatim>\<open>check_deadlines()\<close>; \<open>now\<close> is the clock value it reads after the rows.\<close>

definition check_deadlines :: "sink \<Rightarrow> datetime \<Rightarrow> store \<Rightarrow> effect list list \<times> exn option" where
  "check_deadlines snk now db = check_loop snk now (get_tasks db)"

text \<open>The three reminders, told apart by the title of the notification.\<close>

datatype kind = NotifyTimeReached | Overdue | Approaching

fun kind_of :: "effect \<Rightarrow> kind option" where
  "kind_of (Notify title message timeout) =
     (if title = ''Task Notification'' then Some NotifyTimeReached
      else if title = ''Task Overdue!'' then Some Overdue
      else if title = ''Task Deadline Approaching'' then Some Approaching
      else None)"
| "kind_of _ = None"

definition events :: "kind \<Rightarrow> effect list \<Rightarrow> effect list" where
  "events k es = filter (\<lambda>e. kind_of e = Some k) es"

section \<open>Submitting the form\<close>

text \<open>
  The date and time widgets hand over a \<^verbatim>\<open>date\<close> and a \<^verbatim>\<open>time\<close>;
  \<^verbatim>\<open>datetime.combine\<close> puts their fields together.
\<close>

record date =
  d_year :: nat
  d_month :: nat
  d_day :: nat

record time =
  t_hour :: nat
  t_minute :: nat
  t_second :: nat
  t_microsecond :: nat

definition combine :: "date \<Rightarrow> time \<Rightarrow> datetime" where
  "combine d t =
     \<lparr>year = d_year d, month = d_month d, day = d_day d,
      hour = t_hour t, minute = t_minute t, second = t_second t, microsecond = t_microsecond t\<rparr>"

text \<open>
  \<^verbatim>\<open>strftime(DATETIME_FORMAT)\<close>: every field with leading zeros (the year has four
  digits from the year 1000 on, on every platform).
\<close>

definition digit_char :: "nat \<Rightarrow> char" where
  "digit_char n = char_of (48 + n mod 10)"

definition pad2 :: "nat \<Rightarrow> string" where
  "pad2 n = [digit_char (n div 10), digit_char n]"

definition pad4 :: "nat \<Rightarrow> string" where
  "pad4 n = [digit_char (n div 1000), digit_char (n div 100), digit_char (n div 10), digit_char n]"

definition strftime :: "datetime \<Rightarrow> string" where
  "strftime t =
     pad4 (year t) @ ''-'' @ pad2 (month t) @ ''-'' @ pad2 (day t) @ '' '' @
     pad2 (hour t) @ '':'' @ pad2 (minute t)"

datatype form_message = StError string | StSuccess string

text \<open>
  The branch \<^verbatim>\<open>if submitted:\<close> of \<^verbatim>\<open>main\<close>: the store after it and the message it
  shows. \<open>now\<close> is the clock value it reads first.
\<close>

definition main_submitted ::
  "datetime \<Rightarrow> store \<Rightarrow> string \<Rightarrow> string \<Rightarrow> string \<Rightarrow> string \<Rightarrow>
   date \<Rightarrow> time \<Rightarrow> date \<Rightarrow> time \<Rightarrow> store \<times> form_message" where
  "main_submitted now db nm ab dg pr deadline_date deadline_time notify_date notify_time_val =
     (if nm = [] then (db, StError ''Please enter a task name!'')
      else if ab = [] then
        (db, StError ''Please enter the name of the person who assigned the task!'')
      else if dg = [] then (db, StError ''Please enter the designation of the person!'')
      else
        let deadline_dt = combine deadline_date deadline_time;
            notify_dt = combine notify_date notify_time_val
        in if dt_less deadline_dt now \<or> dt_less notify_dt now then
             (db, StError
                ''Date is invalid. You cannot select past dates for deadline or notify time.'')
           else
             (add_task db nm (strftime deadline_dt) (strftime notify_dt) ab dg pr,
              StSuccess ''Task added successfully!''))"

section \<open>Starting the scheduler\<close>

text \<open>
  The process serves any number of browser sessions, and the framework keeps one
  \<^verbatim>\<open>st.session_state\<close> dictionary for each of them. \<open>triggers\<close> counts the background
  schedulers started with the one-minute job; the program never stops one.
\<close>

record process =
  triggers :: nat
  session_state :: "nat \<Rightarrow> (string \<rightharpoonup> bool)"

definition fresh_process :: process where
  "fresh_process = \<lparr>triggers = 0, session_state = (\<lambda>sid. Map.empty)\<rparr>"

text \<open>\<^verbatim>\<open>init_scheduler()\<close>, run by the script of session \<open>sid\<close>.\<close>

definition init_scheduler :: "nat \<Rightarrow> process \<Rightarrow> process" where
  "init_scheduler sid p =
     (if session_state p sid ''scheduler_started'' = None then
        \<lparr>triggers = triggers p + 1,
         session_state = (session_state p)
           (sid := (session_state p sid)(''scheduler_started'' \<mapsto> True))\<rparr>
      else p)"

text \<open>The sessions whose dictionary has the key.\<close>

definition started :: "process \<Rightarrow> nat set" where
  "started p = {sid. session_state p sid ''scheduler_started'' \<noteq> None}"

text \<open>The scripts of the sessions \<open>sids\<close> run one after the other, each calling it once.\<close>

definition run_scripts :: "nat list \<Rightarrow> process \<Rightarrow> process" where
  "run_scripts sids p = fold init_scheduler sids p"

section \<open>Example rows\<close>

definition now0 :: datetime where
  "now0 = \<lparr>year = 2024, month = 1, day = 1, hour = 10, minute = 15, second = 30, microsecond = 5\<rparr>"

definition task_overdue :: task where
  "task_overdue = \<lparr>task_id = 1, name = ''report'', deadline = ''2024-01-01 10:00'',
     notify_time = ''1970-01-01 00:00'', assigned_by = ''Ann'', designation = ''Lead'',
     priority = ''High'', completed = 0\<rparr>"

definition task_soon :: task where
  "task_soon = \<lparr>task_id = 2, name = ''call'', deadline = ''2024-01-01 10:40'',
     notify_time = ''2024-01-01 10:00'', assigned_by = ''Bob'', designation = ''CTO'',
     priority = ''Medium'', completed = 0\<rparr>"

definition task_done :: task where
  "task_done = \<lparr>task_id = 3, name = ''mail'', deadline = ''2023-12-31 09:00'',
     notify_time = ''2023-12-31 08:00'', assigned_by = ''Ann'', designation = ''Lead'',
     priority = ''Low'', completed = 1\<rparr>"

definition task_later :: task where
  "task_later = \<lparr>task_id = 4, name = ''plan'', deadline = ''2024-01-03 10:00'',
     notify_time = ''2024-01-02 10:00'', assigned_by = ''Bob'', designation = ''CTO'',
     priority = ''Low'', completed = 0\<rparr>"

definition task_corrupt :: task where
  "task_corrupt = \<lparr>task_id = 5, name = ''old'', deadline = ''tomorrow'',
     notify_time = ''1970-01-01 00:00'', assigned_by = [], designation = [],
     priority = ''Medium'', completed = 0\<rparr>"

definition task_both :: task where
  "task_both = \<lparr>task_id = 6, name = ''audit'', deadline = ''2024-01-01 10:00'',
     notify_time = ''2023-12-31 08:00'', assigned_by = ''Ann'', designation = ''Lead'',
     priority = ''High'', completed = 0\<rparr>"

definition db0 :: store where
  "db0 = \<lparr>rows = [task_overdue, task_soon, task_done, task_later], last_id = 4\<rparr>"

definition db_corrupt :: store where
  "db_corrupt = \<lparr>rows = [task_overdue, task_corrupt, task_soon], last_id = 5\<rparr>"

definition db_pair :: store where
  "db_pair = \<lparr>rows = [task_overdue, task_soon], last_id = 2\<rparr>"

definition db_late :: store where
  "db_late = \<lparr>rows = [task_later, task_done, task_both], last_id = 6\<rparr>"

definition delivering :: sink where
  "delivering = (\<lambda>title message timeout. True)"

definition no_backend :: sink where
  "no_backend = (\<lambda>title message timeout. False)"

text \<open>A sink that raises on the notification-time calls and delivers the others.\<close>

definition refuses_reminder :: sink where
  "refuses_reminder = (\<lambda>title message timeout. title \<noteq> ''Task Notification'')"

text \<open>A sink that raises on the overdue calls and delivers the others.\<close>

definition refuses_overdue :: sink where
  "refuses_overdue = (\<lambda>title message timeout. title \<noteq> ''Task Overdue!'')"

section \<open>Evaluating the examples\<close>

lemmas parse_defs = strptime_def re_format_def re_year_def re_month_def re_day_def re_hour_def
  re_minute_def two_digits_def one_digit_def lit_def digit_in_def digit_val_def is_space_def
  mk_datetime_def valid_datetime_def days_in_month_def is_leap_def

lemmas time_defs = dt_less_def dt_fields_def dt_sub_def to_us_def ymd2ord_def days_before_year_def
  days_before_month_def is_leap_def minutes_def days_def epoch_def

lemmas example_defs = now0_def task_overdue_def task_soon_def task_done_def task_later_def
  task_corrupt_def task_both_def delivering_def no_backend_def refuses_reminder_def
  refuses_overdue_def

lemma strptime_examples:
  "strptime ''2024-01-01 10:00'' = Some \<lparr>year = 2024, month = 1, day = 1, hour = 10, minute = 0, second = 0, microsecond = 0\<rparr>"
  "strptime ''2024-01-01 10:40'' = Some \<lparr>year = 2024, month = 1, day = 1, hour = 10, minute = 40, second = 0, microsecond = 0\<rparr>"
  "strptime ''1970-01-01 00:00'' = Some epoch"
  "strptime ''2023-12-31 09:00'' = Some \<lparr>year = 2023, month = 12, day = 31, hour = 9, minute = 0, second = 0, microsecond = 0\<rparr>"
  "strptime ''2023-12-31 08:00'' = Some \<lparr>year = 2023, month = 12, day = 31, hour = 8, minute = 0, second = 0, microsecond = 0\<rparr>"
  "strptime ''2024-01-03 10:00'' = Some \<lparr>year = 2024, month = 1, day = 3, hour = 10, minute = 0, second = 0, microsecond = 0\<rparr>"
  "strptime ''2024-01-02 10:00'' = Some \<lparr>year = 2024, month = 1, day = 2, hour = 10, minute = 0, second = 0, microsecond = 0\<rparr>"
  "strptime ''tomorrow'' = None"
  by (simp_all add: parse_defs epoch_def)

lemma delivering_always: "\<forall>title message. delivering title message 10"
  by (simp add: delivering_def)

lemma db0_rows: "get_tasks db0 = [task_overdue, task_soon, task_done, task_later]"
  by (simp add: db0_def get_tasks_def)

lemma db0_well_formed:
  "\<forall>t\<in>set (get_tasks db0). completed t = 0 \<longrightarrow>
     strptime (deadline t) \<noteq> None \<and> strptime (notify_time t) \<noteq> None"
  by (simp add: db0_rows example_defs strptime_examples)

lemmas run_defs = check_deadlines_def get_tasks_def check_task_def and_then_def notify_def
  skip_def events_def

lemma db_late_rows: "get_tasks db_late = [task_later, task_done] @ task_both # []"
  by (simp add: db_late_def get_tasks_def)

lemma db0_split: "get_tasks db0 = [task_overdue] @ task_soon # [task_done, task_later]"
  by (simp add: db0_def get_tasks_def)

lemma task_both_times:
  "completed task_both = 0"
  "strptime (deadline task_both) =
     Some \<lparr>year = 2024, month = 1, day = 1, hour = 10, minute = 0, second = 0, microsecond = 0\<rparr>"
  "strptime (notify_time task_both) =
     Some \<lparr>year = 2023, month = 12, day = 31, hour = 8, minute = 0, second = 0, microsecond = 0\<rparr>"
  "name task_both = ''audit''"
  by (simp_all add: task_both_def strptime_examples)

lemma task_soon_times:
  "completed task_soon = 0"
  "strptime (deadline task_soon) =
     Some \<lparr>year = 2024, month = 1, day = 1, hour = 10, minute = 40, second = 0, microsecond = 0\<rparr>"
  "strptime (notify_time task_soon) =
     Some \<lparr>year = 2024, month = 1, day = 1, hour = 10, minute = 0, second = 0, microsecond = 0\<rparr>"
  "name task_soon = ''call''"
  by (simp_all add: task_soon_def strptime_examples)

lemma ten_before_now0:
  "dt_less \<lparr>year = 2024, month = 1, day = 1, hour = 10, minute = 0, second = 0, microsecond = 0\<rparr> now0"
  "\<not> dt_less now0 \<lparr>year = 2024, month = 1, day = 1, hour = 10, minute = 0, second = 0, microsecond = 0\<rparr>"
  "dt_less epoch \<lparr>year = 2024, month = 1, day = 1, hour = 10, minute = 0, second = 0, microsecond = 0\<rparr>"
  by (simp_all add: dt_less_def dt_fields_def now0_def epoch_def)

lemma ten_forty_after_now0:
  "dt_sub \<lparr>year = 2024, month = 1, day = 1, hour = 10, minute = 40, second = 0, microsecond = 0\<rparr>
     now0 = 1469999995"
  "\<not> dt_less \<lparr>year = 2024, month = 1, day = 1, hour = 10, minute = 40, second = 0, microsecond = 0\<rparr> now0"
  by (simp_all add: time_defs now0_def)

lemma now0_valid: "valid_datetime now0"
  by (simp add: valid_datetime_def days_in_month_def now0_def)

section \<open>The order of datetimes\<close>

text \<open>
  On valid datetimes the comparison by fields agrees with the comparison of the
  microsecond counts that subtraction uses.
\<close>

lemma mod_400_100: "(n::nat) mod 400 = 0 \<Longrightarrow> n mod 100 = 0"
proof -
  assume "n mod 400 = 0"
  then have "400 dvd n" by (simp add: dvd_eq_mod_eq_0)
  moreover have "(100::nat) dvd 400" by simp
  ultimately have "100 dvd n" by (rule dvd_trans [rotated])
  then show ?thesis by (simp add: dvd_eq_mod_eq_0)
qed

lemma mod_100_4: "(n::nat) mod 100 = 0 \<Longrightarrow> n mod 4 = 0"
proof -
  assume "n mod 100 = 0"
  then have "100 dvd n" by (simp add: dvd_eq_mod_eq_0)
  moreover have "(4::nat) dvd 100" by simp
  ultimately have "4 dvd n" by (rule dvd_trans [rotated])
  then show ?thesis by (simp add: dvd_eq_mod_eq_0)
qed

lemma days_before_year_Suc:
  assumes "1 \<le> y"
  shows "days_before_year (Suc y) = days_before_year y + (if is_leap y then 366 else 365)"
proof -
  from assms obtain p where y: "y = Suc p" by (cases y) auto
  define a where "a = p div 4"
  define b where "b = p div 100"
  define c where "c = p div 400"
  have le: "b \<le> a"
    unfolding a_def b_def by (simp add: div_le_mono2)
  have d4: "Suc p div 4 = (if Suc p mod 4 = 0 then Suc a else a)"
    and d100: "Suc p div 100 = (if Suc p mod 100 = 0 then Suc b else b)"
    and d400: "Suc p div 400 = (if Suc p mod 400 = 0 then Suc c else c)"
    unfolding a_def b_def c_def by (simp_all only: div_Suc)
  have dby: "days_before_year (Suc p) = p * 365 + a - b + c"
    by (simp add: days_before_year_def a_def b_def c_def)
  have dby': "days_before_year (Suc (Suc p)) =
      Suc p * 365 + Suc p div 4 - Suc p div 100 + Suc p div 400"
    by (simp add: days_before_year_def)
  show ?thesis
  proof (cases "Suc p mod 4 = 0")
    case False
    with mod_100_4 [of "Suc p"] have n100: "Suc p mod 100 \<noteq> 0" by blast
    with mod_400_100 [of "Suc p"] have "Suc p mod 400 \<noteq> 0" by blast
    with False n100 le show ?thesis
      unfolding y dby dby' d4 d100 d400 is_leap_def by simp
  next
    case True
    show ?thesis
    proof (cases "Suc p mod 100 = 0")
      case False
      with mod_400_100 [of "Suc p"] have "Suc p mod 400 \<noteq> 0" by blast
      with True False le show ?thesis
        unfolding y dby dby' d4 d100 d400 is_leap_def by simp
    next
      case h: True
      with True le show ?thesis
        unfolding y dby dby' d4 d100 d400 is_leap_def by (cases "Suc p mod 400 = 0") simp_all
    qed
  qed
qed

lemma days_before_year_mono:
  "1 \<le> y1 \<Longrightarrow> y1 < y2 \<Longrightarrow>
   days_before_year y1 + (if is_leap y1 then 366 else 365) \<le> days_before_year y2"
proof (induction y2)
  case 0
  then show ?case by simp
next
  case (Suc y2)
  show ?case
  proof (cases "y1 = y2")
    case True
    with Suc.prems show ?thesis by (simp only: days_before_year_Suc)
  next
    case False
    with Suc.prems have "y1 < y2" "1 \<le> y2" by simp_all
    with Suc have "days_before_year y1 + (if is_leap y1 then 366 else 365) \<le> days_before_year y2"
      by blast
    also have "\<dots> \<le> days_before_year (Suc y2)"
      using \<open>1 \<le> y2\<close> by (simp add: days_before_year_Suc)
    finally show ?thesis .
  qed
qed

lemma month_cases:
  "1 \<le> (m::nat) \<Longrightarrow> m \<le> 12 \<Longrightarrow>
   m = 1 \<or> m = 2 \<or> m = 3 \<or> m = 4 \<or> m = 5 \<or> m = 6 \<or> m = 7 \<or> m = 8 \<or> m = 9 \<or> m = 10 \<or>
   m = 11 \<or> m = 12"
  by arith

lemma days_before_month_Suc:
  assumes "1 \<le> m" "m \<le> 11"
  shows "days_before_month y (Suc m) = days_before_month y m + days_in_month y m"
proof -
  from assms(2) have "m \<le> 12" by simp
  from month_cases [OF assms(1) this] assms(2) show ?thesis
    by (elim disjE) (simp_all add: days_before_month_def days_in_month_def)
qed

lemma days_before_month_mono:
  "1 \<le> m1 \<Longrightarrow> m1 < m2 \<Longrightarrow> m2 \<le> 12 \<Longrightarrow>
   days_before_month y m1 + days_in_month y m1 \<le> days_before_month y m2"
proof (induction m2)
  case 0
  then show ?case by simp
next
  case (Suc m2)
  show ?case
  proof (cases "m1 = m2")
    case True
    with Suc.prems show ?thesis by (simp add: days_before_month_Suc)
  next
    case False
    with Suc.prems have "m1 < m2" "m2 \<le> 12" "1 \<le> m2" "m2 \<le> 11" by simp_all
    with Suc have "days_before_month y m1 + days_in_month y m1 \<le> days_before_month y m2"
      by blast
    also have "\<dots> \<le> days_before_month y (Suc m2)"
      using \<open>1 \<le> m2\<close> \<open>m2 \<le> 11\<close> by (simp add: days_before_month_Suc)
    finally show ?thesis .
  qed
qed

lemma days_within_year:
  assumes "1 \<le> m" "m \<le> 12" "d \<le> days_in_month y m"
  shows "days_before_month y m + d \<le> (if is_leap y then 366 else 365)"
  using month_cases [OF assms(1,2)] assms(3)
  by (elim disjE) (simp_all add: days_before_month_def days_in_month_def split: if_splits)

lemma ymd2ord_mono:
  assumes "1 \<le> y1" "1 \<le> m1" "m1 \<le> 12" "d1 \<le> days_in_month y1 m1"
    and "1 \<le> m2" "m2 \<le> 12" "1 \<le> d2"
    and "y1 < y2 \<or> (y1 = y2 \<and> (m1 < m2 \<or> (m1 = m2 \<and> d1 < d2)))"
  shows "ymd2ord y1 m1 d1 < ymd2ord y2 m2 d2"
proof -
  consider "y1 < y2" | "y1 = y2" "m1 < m2" | "y1 = y2" "m1 = m2" "d1 < d2"
    using assms(8) by blast
  then show ?thesis
  proof cases
    case 1
    have "days_before_month y1 m1 + d1 \<le> (if is_leap y1 then 366 else 365)"
      using assms(2,3,4) by (rule days_within_year)
    moreover have "days_before_year y1 + (if is_leap y1 then 366 else 365) \<le> days_before_year y2"
      using assms(1) 1 by (rule days_before_year_mono)
    ultimately show ?thesis
      using assms(7) unfolding ymd2ord_def by linarith
  next
    case 2
    have "days_before_month y1 m1 + days_in_month y1 m1 \<le> days_before_month y1 m2"
      using assms(2) 2(2) assms(6) by (rule days_before_month_mono)
    then show ?thesis
      using assms(4,7) 2(1) by (simp add: ymd2ord_def)
  next
    case 3
    then show ?thesis by (simp add: ymd2ord_def)
  qed
qed

lemma dt_less_iff:
  "dt_less a b \<longleftrightarrow>
     year a < year b \<or> (year a = year b \<and>
     (month a < month b \<or> (month a = month b \<and>
     (day a < day b \<or> (day a = day b \<and>
     (hour a < hour b \<or> (hour a = hour b \<and>
     (minute a < minute b \<or> (minute a = minute b \<and>
     (second a < second b \<or> (second a = second b \<and> microsecond a < microsecond b)))))))))))"
  by (simp add: dt_less_def dt_fields_def)

lemma to_us_split:
  "to_us t = int (ymd2ord (year t) (month t) (day t)) * 86400000000 +
     (int (hour t) * 3600000000 + int (minute t) * 60000000 + int (second t) * 1000000 +
      int (microsecond t))"
  by (simp add: to_us_def algebra_simps)

lemma dt_less_to_us:
  assumes "valid_datetime a" "valid_datetime b" "dt_less a b"
  shows "to_us a < to_us b"
proof -
  let ?oa = "ymd2ord (year a) (month a) (day a)" and ?ob = "ymd2ord (year b) (month b) (day b)"
  from assms(1) have va: "1 \<le> year a" "1 \<le> month a" "month a \<le> 12"
      "day a \<le> days_in_month (year a) (month a)"
      "hour a < 24" "minute a < 60" "second a < 60" "microsecond a < 1000000"
    by (simp_all add: valid_datetime_def)
  from assms(2) have vb: "1 \<le> month b" "month b \<le> 12" "1 \<le> day b"
      "hour b < 24" "minute b < 60" "second b < 60" "microsecond b < 1000000"
    by (simp_all add: valid_datetime_def)
  consider
    (date) "year a < year b \<or> (year a = year b \<and>
        (month a < month b \<or> (month a = month b \<and> day a < day b)))"
  | (time) "year a = year b" "month a = month b" "day a = day b"
      "hour a < hour b \<or> (hour a = hour b \<and>
        (minute a < minute b \<or> (minute a = minute b \<and>
        (second a < second b \<or> (second a = second b \<and> microsecond a < microsecond b)))))"
    using assms(3) unfolding dt_less_iff by blast
  then show ?thesis
  proof cases
    case date
    have "?oa < ?ob"
      using va(1-4) vb(1-3) date by (rule ymd2ord_mono)
    then have "int ?oa + 1 \<le> int ?ob" by simp
    then have "(int ?oa + 1) * 86400000000 \<le> int ?ob * 86400000000"
      by (rule mult_right_mono) simp
    then show ?thesis
      using va(5-8) unfolding to_us_split by (simp add: algebra_simps)
  next
    case time
    then show ?thesis
      using va(5-8) vb(4-7) unfolding to_us_split by auto
  qed
qed

lemma mk_datetime_valid: "mk_datetime y mo d h mi s us = Some t \<Longrightarrow> valid_datetime t"
  by (auto simp: mk_datetime_def Let_def split: if_splits)

lemma strptime_valid: "strptime s = Some t \<Longrightarrow> valid_datetime t"
  by (auto simp: strptime_def split: list.splits prod.splits if_splits dest: mk_datetime_valid)

section \<open>The loop of the deadline check\<close>

lemma check_loop_nth:
  "i < length (fst (check_loop snk now ts)) \<Longrightarrow>
   fst (check_loop snk now ts) ! i = fst (check_task snk now (ts ! i))"
proof (induction ts arbitrary: i)
  case Nil
  then show ?case by simp
next
  case (Cons t ts)
  then show ?case
    by (cases i) (auto split: prod.splits option.splits)
qed

lemma check_loop_all_ok:
  "\<forall>t\<in>set ts. snd (check_task snk now t) = None \<Longrightarrow>
   check_loop snk now ts = (map (\<lambda>t. fst (check_task snk now t)) ts, None)"
  by (induction ts) (auto split: prod.splits option.splits)

lemma check_loop_stops:
  "snd (check_loop snk now pre) = None \<Longrightarrow> check_task snk now t = (es, Some e) \<Longrightarrow>
   check_loop snk now (pre @ t # post) = (fst (check_loop snk now pre) @ [es], Some e)"
  by (induction pre) (auto split: prod.splits option.splits)

lemma check_loop_fails:
  "t \<in> set ts \<Longrightarrow> snd (check_task snk now t) \<noteq> None \<Longrightarrow> snd (check_loop snk now ts) \<noteq> None"
  by (induction ts) (auto split: prod.splits option.splits)

lemma check_task_completed: "completed t \<noteq> 0 \<Longrightarrow> check_task snk now t = ([], None)"
  by (simp add: check_task_def skip_def)

lemma check_task_unparsable:
  "completed t = 0 \<Longrightarrow> strptime (deadline t) = None \<or> strptime (notify_time t) = None \<Longrightarrow>
   check_task snk now t = ([], Some ValueError)"
  by (auto simp: check_task_def split: option.splits)

lemma check_task_delivered:
  assumes "\<forall>title message. snk title message 10"
    and "completed t = 0"
    and "strptime (deadline t) = Some deadline_dt"
    and "strptime (notify_time t) = Some notify_dt"
  shows "check_task snk now t =
     ((if \<not> dt_less now notify_dt \<and> dt_less epoch notify_dt
       then [Notify ''Task Notification'' (task_msg (name t) '' notification time reached!'') 10,
             StInfo (task_msg (name t) '' notification time reached!'')]
       else []) @
      (if dt_less deadline_dt now
       then [Notify ''Task Overdue!'' (task_msg (name t) '' is overdue!'') 10,
             StWarning (task_msg (name t) '' is overdue!'')]
       else if dt_sub deadline_dt now < minutes 30
       then [Notify ''Task Deadline Approaching'' (task_msg (name t) '' deadline is approaching!'') 10,
             StInfo (task_msg (name t) '' deadline is approaching!'')]
       else []), None)"
  using assms by (simp add: check_task_def and_then_def notify_def skip_def)

lemma check_task_no_exception:
  assumes "\<forall>title message. snk title message 10"
    and "completed t = 0 \<longrightarrow> strptime (deadline t) \<noteq> None \<and> strptime (notify_time t) \<noteq> None"
  shows "snd (check_task snk now t) = None"
proof (cases "completed t = 0")
  case True
  with assms(2) obtain d n where "strptime (deadline t) = Some d" "strptime (notify_time t) = Some n"
    by auto
  with assms(1) True show ?thesis by (simp add: check_task_delivered)
next
  case False
  then show ?thesis by (simp add: check_task_completed)
qed

lemma check_deadlines_complete:
  assumes "\<forall>title message. snk title message 10"
    and "\<forall>t\<in>set (get_tasks db). completed t = 0 \<longrightarrow>
           strptime (deadline t) \<noteq> None \<and> strptime (notify_time t) \<noteq> None"
  shows "check_deadlines snk now db = (map (\<lambda>t. fst (check_task snk now t)) (get_tasks db), None)"
  unfolding check_deadlines_def
  by (rule check_loop_all_ok) (use assms check_task_no_exception in blast)

lemma check_loop_without_completed:
  "snd (check_loop snk now (filter (\<lambda>t. completed t = 0) ts)) = snd (check_loop snk now ts) \<and>
   concat (fst (check_loop snk now (filter (\<lambda>t. completed t = 0) ts))) =
   concat (fst (check_loop snk now ts))"
  by (induction ts) (auto simp: check_task_completed split: prod.splits option.splits)

lemma check_loop_reaches:
  "snd (check_loop snk now pre) = None \<Longrightarrow>
   length pre < length (fst (check_loop snk now (pre @ t # post))) \<and>
   fst (check_loop snk now (pre @ t # post)) ! length pre = fst (check_task snk now t)"
  by (induction pre) (auto split: prod.splits option.splits)

lemma check_task_notify_events:
  assumes "completed t = 0"
    and "strptime (deadline t) = Some deadline_dt"
    and "strptime (notify_time t) = Some notify_dt"
  shows "events NotifyTimeReached (fst (check_task snk now t)) =
     (if \<not> dt_less now notify_dt \<and> dt_less epoch notify_dt
      then [Notify ''Task Notification'' (task_msg (name t) '' notification time reached!'') 10]
      else [])"
  using assms by (simp add: check_task_def and_then_def notify_def skip_def events_def)

lemma check_task_deadline_events:
  assumes "completed t = 0"
    and "strptime (deadline t) = Some deadline_dt"
    and "strptime (notify_time t) = Some notify_dt"
    and "\<not> dt_less now notify_dt \<and> dt_less epoch notify_dt \<longrightarrow>
         snk ''Task Notification'' (task_msg (name t) '' notification time reached!'') 10"
  shows "events Overdue (fst (check_task snk now t)) =
     (if dt_less deadline_dt now
      then [Notify ''Task Overdue!'' (task_msg (name t) '' is overdue!'') 10] else [])"
    and "events Approaching (fst (check_task snk now t)) =
     (if \<not> dt_less deadline_dt now \<and> dt_sub deadline_dt now < minutes 30
      then [Notify ''Task Deadline Approaching''
              (task_msg (name t) '' deadline is approaching!'') 10]
      else [])"
  using assms by (simp_all add: check_task_def and_then_def notify_def skip_def events_def)

lemma check_task_sentinel:
  "strptime (notify_time t) = Some epoch \<Longrightarrow>
   events NotifyTimeReached (fst (check_task snk now t)) = []"
proof -
  assume n: "strptime (notify_time t) = Some epoch"
  have ne: "\<not> dt_less epoch epoch"
    by (simp add: dt_less_def dt_fields_def)
  show ?thesis
  proof (cases "completed t = 0")
    case False
    then show ?thesis by (simp add: check_task_completed events_def)
  next
    case True
    show ?thesis
    proof (cases "strptime (deadline t)")
      case None
      with True show ?thesis by (simp add: check_task_unparsable events_def)
    next
      case (Some d)
      with True n ne show ?thesis by (simp add: check_task_notify_events)
    qed
  qed
qed

lemma before_task_both:
  "check_loop snk now0 [task_later, task_done] = ([[], []], None)"
  by (simp add: check_task_def and_then_def skip_def task_later_def task_done_def
        strptime_examples time_defs now0_def)

lemma before_task_soon_delivering:
  "check_loop delivering now0 [task_overdue] =
     ([[Notify ''Task Overdue!'' (task_msg ''report'' '' is overdue!'') 10,
        StWarning (task_msg ''report'' '' is overdue!'')]], None)"
  by (simp add: check_task_def and_then_def notify_def skip_def task_overdue_def delivering_def
        strptime_examples dt_less_def dt_fields_def now0_def epoch_def)

lemma before_task_soon_refuses_reminder:
  "check_loop refuses_reminder now0 [task_overdue] =
     ([[Notify ''Task Overdue!'' (task_msg ''report'' '' is overdue!'') 10,
        StWarning (task_msg ''report'' '' is overdue!'')]], None)"
  by (simp add: check_task_def and_then_def notify_def skip_def task_overdue_def
        refuses_reminder_def strptime_examples dt_less_def dt_fields_def now0_def epoch_def)

section \<open>Properties of the deadline check\<close>

text \<open>
  C1, as the code has it: a row of the snapshot that is not completed and whose deadline
  is before \<open>now\<close> gets exactly one overdue notification and no approaching one in a
  pass that reaches its deadline check: nothing was raised for the rows before it, and
  its own notification-time call, when one is due, did not raise. The event is the call
  of the sink, whether or not that call then raises.
\<close>

theorem check_deadlines_overdue:
  assumes "get_tasks db = pre @ t # post"
    and "snd (check_loop snk now pre) = None"
    and "completed t = 0"
    and "strptime (deadline t) = Some deadline_dt"
    and "strptime (notify_time t) = Some notify_dt"
    and "\<not> dt_less now notify_dt \<and> dt_less epoch notify_dt \<longrightarrow>
         snk ''Task Notification'' (task_msg (name t) '' notification time reached!'') 10"
    and "dt_less deadline_dt now"
  shows "length pre < length (fst (check_deadlines snk now db)) \<and>
         events Overdue (fst (check_deadlines snk now db) ! length pre) =
           [Notify ''Task Overdue!'' (task_msg (name t) '' is overdue!'') 10] \<and>
         events Approaching (fst (check_deadlines snk now db) ! length pre) = []"
proof -
  have "length pre < length (fst (check_deadlines snk now db))"
    and "fst (check_deadlines snk now db) ! length pre = fst (check_task snk now t)"
    using check_loop_reaches [OF assms(2), of t post] assms(1)
    by (simp_all add: check_deadlines_def)
  then show ?thesis
    using check_task_deadline_events [where snk = snk and now = now, OF assms(3,4,5,6)] assms(7) by simp
qed

theorem check_deadlines_overdue_witness:
  "dt_less \<lparr>year = 2024, month = 1, day = 1, hour = 10, minute = 0, second = 0, microsecond = 0\<rparr>
     now0 \<and>
   events Overdue (fst (check_deadlines delivering now0 db_late) ! 2) =
     [Notify ''Task Overdue!'' (task_msg ''audit'' '' is overdue!'') 10] \<and>
   events Approaching (fst (check_deadlines delivering now0 db_late) ! 2) = []"
proof -
  have pre: "snd (check_loop delivering now0 [task_later, task_done]) = None"
    by (simp only: before_task_both snd_conv)
  have s: "\<not> dt_less now0
        \<lparr>year = 2023, month = 12, day = 31, hour = 8, minute = 0, second = 0, microsecond = 0\<rparr> \<and>
      dt_less epoch
        \<lparr>year = 2023, month = 12, day = 31, hour = 8, minute = 0, second = 0, microsecond = 0\<rparr> \<longrightarrow>
      delivering ''Task Notification'' (task_msg (name task_both) '' notification time reached!'') 10"
    by (simp add: delivering_def)
  from check_deadlines_overdue [OF db_late_rows pre task_both_times(1,2,3) s ten_before_now0(1)]
    ten_before_now0(1)
  show ?thesis
    by (simp add: task_both_times(4) numeral_2_eq_2)
qed

text \<open>
  A sink that raises on the notification-time call of an overdue row: the pass ends at
  that call, and the row gets no overdue notification.
\<close>

theorem check_deadlines_overdue_counterexample:
  "completed task_both = 0 \<and>
   strptime (deadline task_both) =
     Some \<lparr>year = 2024, month = 1, day = 1, hour = 10, minute = 0, second = 0, microsecond = 0\<rparr> \<and>
   dt_less \<lparr>year = 2024, month = 1, day = 1, hour = 10, minute = 0, second = 0, microsecond = 0\<rparr>
     now0 \<and>
   get_tasks db_late ! 2 = task_both \<and>
   check_deadlines refuses_reminder now0 db_late =
     ([[], [], [Notify ''Task Notification'' (task_msg ''audit'' '' notification time reached!'') 10]],
      Some SinkFailure) \<and>
   events Overdue (fst (check_deadlines refuses_reminder now0 db_late) ! 2) = []"
  by (simp add: db_late_def run_defs example_defs strptime_examples time_defs)

text \<open>
  C2, as the code has it: a row of the snapshot that is not completed and whose deadline
  is at \<open>now\<close> or less than 30 minutes after it gets exactly one approaching
  notification and no overdue one in a pass that reaches its deadline check: nothing was
  raised for the rows before it, and its own notification-time call, when one is due,
  did not raise. \<open>now\<close> is a datetime the constructor accepts.
\<close>

theorem check_deadlines_approaching:
  assumes "get_tasks db = pre @ t # post"
    and "snd (check_loop snk now pre) = None"
    and "completed t = 0"
    and "strptime (deadline t) = Some deadline_dt"
    and "strptime (notify_time t) = Some notify_dt"
    and "\<not> dt_less now notify_dt \<and> dt_less epoch notify_dt \<longrightarrow>
         snk ''Task Notification'' (task_msg (name t) '' notification time reached!'') 10"
    and "valid_datetime now"
    and "0 \<le> dt_sub deadline_dt now"
    and "dt_sub deadline_dt now < minutes 30"
  shows "length pre < length (fst (check_deadlines snk now db)) \<and>
         events Approaching (fst (check_deadlines snk now db) ! length pre) =
           [Notify ''Task Deadline Approaching''
              (task_msg (name t) '' deadline is approaching!'') 10] \<and>
         events Overdue (fst (check_deadlines snk now db) ! length pre) = []"
proof -
  have "valid_datetime deadline_dt"
    using assms(4) by (rule strptime_valid)
  then have "dt_less deadline_dt now \<Longrightarrow> to_us deadline_dt < to_us now"
    using assms(7) by (rule dt_less_to_us)
  with assms(8) have not_overdue: "\<not> dt_less deadline_dt now"
    by (auto simp: dt_sub_def)
  have "length pre < length (fst (check_deadlines snk now db))"
    and "fst (check_deadlines snk now db) ! length pre = fst (check_task snk now t)"
    using check_loop_reaches [OF assms(2), of t post] assms(1)
    by (simp_all add: check_deadlines_def)
  then show ?thesis
    using check_task_deadline_events [where snk = snk and now = now, OF assms(3,4,5,6)] assms(9) not_overdue by simp
qed

theorem check_deadlines_approaching_witness:
  "valid_datetime now0 \<and>
   dt_sub \<lparr>year = 2024, month = 1, day = 1, hour = 10, minute = 40, second = 0, microsecond = 0\<rparr>
     now0 = 1469999995 \<and>
   events Approaching (fst (check_deadlines delivering now0 db0) ! 1) =
     [Notify ''Task Deadline Approaching'' (task_msg ''call'' '' deadline is approaching!'') 10] \<and>
   events Overdue (fst (check_deadlines delivering now0 db0) ! 1) = []"
proof -
  let ?d = "\<lparr>year = 2024, month = 1, day = 1, hour = 10, minute = 40, second = 0, microsecond = 0\<rparr>"
  have pre: "snd (check_loop delivering now0 [task_overdue]) = None"
    by (simp only: before_task_soon_delivering snd_conv)
  have s: "\<not> dt_less now0
        \<lparr>year = 2024, month = 1, day = 1, hour = 10, minute = 0, second = 0, microsecond = 0\<rparr> \<and>
      dt_less epoch
        \<lparr>year = 2024, month = 1, day = 1, hour = 10, minute = 0, second = 0, microsecond = 0\<rparr> \<longrightarrow>
      delivering ''Task Notification'' (task_msg (name task_soon) '' notification time reached!'') 10"
    by (simp add: delivering_def)
  have lo: "0 \<le> dt_sub ?d now0" and hi: "dt_sub ?d now0 < minutes 30"
    unfolding ten_forty_after_now0(1) minutes_def by simp_all
  from check_deadlines_approaching [OF db0_split pre task_soon_times(1,2,3) s now0_valid lo hi]
    now0_valid ten_forty_after_now0(1)
  show ?thesis
    by (simp add: task_soon_times(4))
qed

text \<open>
  A sink that raises on the overdue call of the first row: the second row, whose
  deadline is less than 30 minutes away, is never looked at and gets no approaching
  notification.
\<close>

theorem check_deadlines_approaching_counterexample:
  "completed task_soon = 0 \<and>
   strptime (deadline task_soon) =
     Some \<lparr>year = 2024, month = 1, day = 1, hour = 10, minute = 40, second = 0, microsecond = 0\<rparr> \<and>
   dt_sub \<lparr>year = 2024, month = 1, day = 1, hour = 10, minute = 40, second = 0, microsecond = 0\<rparr>
     now0 = 1469999995 \<and>
   minutes 30 = 1800000000 \<and>
   get_tasks db_pair = [task_overdue, task_soon] \<and>
   check_deadlines no_backend now0 db_pair =
     ([[Notify ''Task Overdue!'' (task_msg ''report'' '' is overdue!'') 10]], Some SinkFailure) \<and>
   events Approaching (concat (fst (check_deadlines no_backend now0 db_pair))) = []"
  by (simp add: db_pair_def run_defs example_defs strptime_examples time_defs)

text \<open>
  C3: a completed row gets no effect of any kind, whatever its timestamps, whatever
  \<open>now\<close> and whatever the sink does: the iteration of a completed row is empty, and
  the pass behaves as it does on the store without its completed rows.
\<close>

theorem check_deadlines_completed_silent:
  "(\<forall>i < length (fst (check_deadlines snk now db)).
      completed (get_tasks db ! i) \<noteq> 0 \<longrightarrow> fst (check_deadlines snk now db) ! i = []) \<and>
   snd (check_deadlines snk now (db\<lparr>rows := filter (\<lambda>t. completed t = 0) (rows db)\<rparr>)) =
     snd (check_deadlines snk now db) \<and>
   concat (fst (check_deadlines snk now (db\<lparr>rows := filter (\<lambda>t. completed t = 0) (rows db)\<rparr>))) =
     concat (fst (check_deadlines snk now db))"
  using check_loop_without_completed [of snk now "rows db"]
  by (simp add: check_deadlines_def get_tasks_def check_loop_nth check_task_completed)

theorem check_deadlines_completed_silent_witness:
  "length (fst (check_deadlines delivering now0 db0)) = 4 \<and> completed (get_tasks db0 ! 2) = 1 \<and>
   fst (check_deadlines delivering now0 db0) ! 2 = []"
proof -
  have n: "length (fst (check_deadlines delivering now0 db0)) = 4"
    using delivering_always db0_well_formed by (simp add: check_deadlines_complete db0_rows)
  have c: "completed (get_tasks db0 ! 2) = 1"
    by (simp add: db0_rows task_done_def)
  from check_deadlines_completed_silent [of delivering now0 db0] n c show ?thesis
    by simp
qed

text \<open>
  C4, as the code has it: a row that is not completed and that the pass reaches (nothing
  was raised for the rows before it) gets the notification-time event exactly when
  \<open>now\<close> is not before its notify time and its notify time is strictly after
  1970-01-01 00:00. The deadline plays no part in it, so it may come with an overdue or
  an approaching event. A row whose notify time is the sentinel never gets it, for
  every \<open>now\<close> and every sink.
\<close>

theorem check_deadlines_notify_time:
  assumes "get_tasks db = pre @ t # post"
    and "snd (check_loop snk now pre) = None"
    and "completed t = 0"
    and "strptime (deadline t) = Some deadline_dt"
    and "strptime (notify_time t) = Some notify_dt"
  shows "length pre < length (fst (check_deadlines snk now db)) \<and>
         events NotifyTimeReached (fst (check_deadlines snk now db) ! length pre) =
           (if \<not> dt_less now notify_dt \<and> dt_less epoch notify_dt
            then [Notify ''Task Notification''
                    (task_msg (name t) '' notification time reached!'') 10]
            else []) \<and>
         (\<forall>i < length (fst (check_deadlines snk now db)).
            strptime (notify_time (get_tasks db ! i)) = Some epoch \<longrightarrow>
            events NotifyTimeReached (fst (check_deadlines snk now db) ! i) = [])"
proof -
  have "length pre < length (fst (check_deadlines snk now db))"
    and "fst (check_deadlines snk now db) ! length pre = fst (check_task snk now t)"
    using check_loop_reaches [OF assms(2), of t post] assms(1)
    by (simp_all add: check_deadlines_def)
  moreover have "\<forall>i < length (fst (check_deadlines snk now db)).
      strptime (notify_time (get_tasks db ! i)) = Some epoch \<longrightarrow>
      events NotifyTimeReached (fst (check_deadlines snk now db) ! i) = []"
    by (simp add: check_deadlines_def check_loop_nth check_task_sentinel)
  ultimately show ?thesis
    using check_task_notify_events [OF assms(3,4,5), of snk now] by simp
qed

theorem check_deadlines_notify_time_witness:
  "events NotifyTimeReached (fst (check_deadlines delivering now0 db0) ! 1) =
     [Notify ''Task Notification'' (task_msg ''call'' '' notification time reached!'') 10] \<and>
   events Approaching (fst (check_deadlines delivering now0 db0) ! 1) =
     [Notify ''Task Deadline Approaching'' (task_msg ''call'' '' deadline is approaching!'') 10] \<and>
   strptime (notify_time (get_tasks db0 ! 0)) = Some epoch \<and>
   events NotifyTimeReached (fst (check_deadlines delivering now0 db0) ! 0) = []"
proof -
  have pre: "snd (check_loop delivering now0 [task_overdue]) = None"
    by (simp only: before_task_soon_delivering snd_conv)
  have n0: "strptime (notify_time (get_tasks db0 ! 0)) = Some epoch"
    by (simp add: db0_rows task_overdue_def strptime_examples)
  have a: "events Approaching (fst (check_deadlines delivering now0 db0) ! 1) =
      [Notify ''Task Deadline Approaching'' (task_msg ''call'' '' deadline is approaching!'') 10]"
    by (simp add: db0_def run_defs example_defs strptime_examples time_defs)
  note th = check_deadlines_notify_time [OF db0_split pre task_soon_times(1,2,3)]
  from th have "length [task_overdue] < length (fst (check_deadlines delivering now0 db0))"
    by (rule conjunct1)
  then have "0 < length (fst (check_deadlines delivering now0 db0))"
    by (simp del: length_greater_0_conv)
  with th n0 have z: "events NotifyTimeReached (fst (check_deadlines delivering now0 db0) ! 0) = []"
    by blast
  from th n0 a z ten_before_now0(2,3) show ?thesis
    by (simp add: task_soon_times(4))
qed

text \<open>
  A sink that raises on the overdue call of the first row: the second row, whose
  notify time is reached, is never looked at and gets no notification-time event.
\<close>

theorem check_deadlines_notify_time_counterexample:
  "completed task_soon = 0 \<and>
   strptime (notify_time task_soon) =
     Some \<lparr>year = 2024, month = 1, day = 1, hour = 10, minute = 0, second = 0, microsecond = 0\<rparr> \<and>
   \<not> dt_less now0
       \<lparr>year = 2024, month = 1, day = 1, hour = 10, minute = 0, second = 0, microsecond = 0\<rparr> \<and>
   dt_less epoch
     \<lparr>year = 2024, month = 1, day = 1, hour = 10, minute = 0, second = 0, microsecond = 0\<rparr> \<and>
   get_tasks db0 ! 1 = task_soon \<and>
   check_deadlines refuses_overdue now0 db0 =
     ([[Notify ''Task Overdue!'' (task_msg ''report'' '' is overdue!'') 10]], Some SinkFailure) \<and>
   events NotifyTimeReached (concat (fst (check_deadlines refuses_overdue now0 db0))) = []"
  by (simp add: db0_def run_defs example_defs strptime_examples time_defs)

text \<open>
  C8: a row that is not completed and whose deadline or notify time does not parse ends
  the pass with the ValueError: nothing is emitted for that row, no later row is
  looked at, nothing is retried.
\<close>

theorem check_deadlines_unparsable_fatal:
  assumes "get_tasks db = pre @ t # post"
    and "completed t = 0"
    and "strptime (deadline t) = None \<or> strptime (notify_time t) = None"
  shows "snd (check_deadlines snk now db) \<noteq> None \<and>
         (snd (check_loop snk now pre) = None \<longrightarrow>
          check_deadlines snk now db = (fst (check_loop snk now pre) @ [[]], Some ValueError))"
proof -
  have t: "check_task snk now t = ([], Some ValueError)"
    using assms(2,3) by (rule check_task_unparsable)
  then have "snd (check_loop snk now (pre @ t # post)) \<noteq> None"
    by (intro check_loop_fails [of t]) simp_all
  with t assms(1) show ?thesis
    by (simp add: check_deadlines_def check_loop_stops)
qed

theorem check_deadlines_unparsable_fatal_witness:
  "strptime (deadline task_corrupt) = None \<and>
   check_deadlines delivering now0 db_corrupt =
     ([[Notify ''Task Overdue!'' (task_msg ''report'' '' is overdue!'') 10,
        StWarning (task_msg ''report'' '' is overdue!'')], []], Some ValueError)"
proof -
  have r: "get_tasks db_corrupt = [task_overdue] @ task_corrupt # [task_soon]"
    by (simp add: db_corrupt_def get_tasks_def)
  have c: "completed task_corrupt = 0"
    by (simp add: task_corrupt_def)
  have u: "strptime (deadline task_corrupt) = None"
    by (simp add: task_corrupt_def strptime_examples)
  then have u': "strptime (deadline task_corrupt) = None \<or> strptime (notify_time task_corrupt) = None"
    by simp
  have pre: "check_loop delivering now0 [task_overdue] =
      ([[Notify ''Task Overdue!'' (task_msg ''report'' '' is overdue!'') 10,
         StWarning (task_msg ''report'' '' is overdue!'')]], None)"
    by (simp add: check_task_def and_then_def notify_def skip_def task_overdue_def delivering_def
          strptime_examples dt_less_def dt_fields_def now0_def epoch_def)
  from check_deadlines_unparsable_fatal [OF r c u', of delivering now0] u pre show ?thesis
    by simp
qed

text \<open>
  C5, as the code has it: nothing catches what the sink raises. Whichever of the three
  calls made for a row raises (the notification-time call, the overdue call or the
  approaching call), the pass ends at that call with the exception of the sink: the
  effects up to and including the refused call stand, the message after it is not
  shown, and the rows after it are not evaluated.
\<close>

theorem check_deadlines_sink_failure_stops:
  assumes "get_tasks db = pre @ t # post"
    and "snd (check_loop snk now pre) = None"
    and "completed t = 0"
    and "strptime (deadline t) = Some deadline_dt"
    and "strptime (notify_time t) = Some notify_dt"
  shows
    "(\<not> dt_less now notify_dt \<and> dt_less epoch notify_dt \<and>
      \<not> snk ''Task Notification'' (task_msg (name t) '' notification time reached!'') 10 \<longrightarrow>
      check_deadlines snk now db =
        (fst (check_loop snk now pre) @
           [[Notify ''Task Notification'' (task_msg (name t) '' notification time reached!'') 10]],
         Some SinkFailure)) \<and>
     ((\<not> dt_less now notify_dt \<and> dt_less epoch notify_dt \<longrightarrow>
         snk ''Task Notification'' (task_msg (name t) '' notification time reached!'') 10) \<and>
      dt_less deadline_dt now \<and>
      \<not> snk ''Task Overdue!'' (task_msg (name t) '' is overdue!'') 10 \<longrightarrow>
      check_deadlines snk now db =
        (fst (check_loop snk now pre) @
           [(if \<not> dt_less now notify_dt \<and> dt_less epoch notify_dt
             then [Notify ''Task Notification''
                     (task_msg (name t) '' notification time reached!'') 10,
                   StInfo (task_msg (name t) '' notification time reached!'')]
             else []) @
            [Notify ''Task Overdue!'' (task_msg (name t) '' is overdue!'') 10]],
         Some SinkFailure)) \<and>
     ((\<not> dt_less now notify_dt \<and> dt_less epoch notify_dt \<longrightarrow>
         snk ''Task Notification'' (task_msg (name t) '' notification time reached!'') 10) \<and>
      \<not> dt_less deadline_dt now \<and> dt_sub deadline_dt now < minutes 30 \<and>
      \<not> snk ''Task Deadline Approaching'' (task_msg (name t) '' deadline is approaching!'') 10 \<longrightarrow>
      check_deadlines snk now db =
        (fst (check_loop snk now pre) @
           [(if \<not> dt_less now notify_dt \<and> dt_less epoch notify_dt
             then [Notify ''Task Notification''
                     (task_msg (name t) '' notification time reached!'') 10,
                   StInfo (task_msg (name t) '' notification time reached!'')]
             else []) @
            [Notify ''Task Deadline Approaching''
               (task_msg (name t) '' deadline is approaching!'') 10]],
         Some SinkFailure))"
proof -
  have stop: "check_deadlines snk now db = (fst (check_loop snk now pre) @ [es], Some SinkFailure)"
    if "check_task snk now t = (es, Some SinkFailure)" for es
    using check_loop_stops [OF assms(2) that, of post] assms(1)
    by (simp add: check_deadlines_def)
  show ?thesis
  proof (intro conjI impI)
    assume "\<not> dt_less now notify_dt \<and> dt_less epoch notify_dt \<and>
      \<not> snk ''Task Notification'' (task_msg (name t) '' notification time reached!'') 10"
    with assms(3,4,5) show "check_deadlines snk now db =
        (fst (check_loop snk now pre) @
           [[Notify ''Task Notification'' (task_msg (name t) '' notification time reached!'') 10]],
         Some SinkFailure)"
      by (intro stop) (simp add: check_task_def and_then_def notify_def skip_def)
  next
    assume "(\<not> dt_less now notify_dt \<and> dt_less epoch notify_dt \<longrightarrow>
         snk ''Task Notification'' (task_msg (name t) '' notification time reached!'') 10) \<and>
      dt_less deadline_dt now \<and>
      \<not> snk ''Task Overdue!'' (task_msg (name t) '' is overdue!'') 10"
    with assms(3,4,5) show "check_deadlines snk now db =
        (fst (check_loop snk now pre) @
           [(if \<not> dt_less now notify_dt \<and> dt_less epoch notify_dt
             then [Notify ''Task Notification''
                     (task_msg (name t) '' notification time reached!'') 10,
                   StInfo (task_msg (name t) '' notification time reached!'')]
             else []) @
            [Notify ''Task Overdue!'' (task_msg (name t) '' is overdue!'') 10]],
         Some SinkFailure)"
      by (intro stop) (simp add: check_task_def and_then_def notify_def skip_def)
  next
    assume "(\<not> dt_less now notify_dt \<and> dt_less epoch notify_dt \<longrightarrow>
         snk ''Task Notification'' (task_msg (name t) '' notification time reached!'') 10) \<and>
      \<not> dt_less deadline_dt now \<and> dt_sub deadline_dt now < minutes 30 \<and>
      \<not> snk ''Task Deadline Approaching'' (task_msg (name t) '' deadline is approaching!'') 10"
    with assms(3,4,5) show "check_deadlines snk now db =
        (fst (check_loop snk now pre) @
           [(if \<not> dt_less now notify_dt \<and> dt_less epoch notify_dt
             then [Notify ''Task Notification''
                     (task_msg (name t) '' notification time reached!'') 10,
                   StInfo (task_msg (name t) '' notification time reached!'')]
             else []) @
            [Notify ''Task Deadline Approaching''
               (task_msg (name t) '' deadline is approaching!'') 10]],
         Some SinkFailure)"
      by (intro stop) (simp add: check_task_def and_then_def notify_def skip_def)
  qed
qed

theorem check_deadlines_sink_failure_stops_witness:
  "\<not> refuses_reminder ''Task Notification'' (task_msg ''call'' '' notification time reached!'') 10 \<and>
   check_deadlines refuses_reminder now0 db0 =
     ([[Notify ''Task Overdue!'' (task_msg ''report'' '' is overdue!'') 10,
        StWarning (task_msg ''report'' '' is overdue!'')],
       [Notify ''Task Notification'' (task_msg ''call'' '' notification time reached!'') 10]],
      Some SinkFailure)"
proof -
  have pre: "snd (check_loop refuses_reminder now0 [task_overdue]) = None"
    by (simp only: before_task_soon_refuses_reminder snd_conv)
  have r: "\<not> refuses_reminder ''Task Notification''
      (task_msg ''call'' '' notification time reached!'') 10"
    by (simp add: refuses_reminder_def)
  note th = check_deadlines_sink_failure_stops [OF db0_split pre task_soon_times(1,2,3),
      unfolded before_task_soon_refuses_reminder fst_conv task_soon_times(4)]
  from th r ten_before_now0(2,3) show ?thesis
    by simp
qed

text \<open>
  With a sink that raises, the pass over the four example rows stops at the first call;
  with a sink that delivers, the second row gets its two notifications.
\<close>

theorem check_deadlines_sink_failure_counterexample:
  "length (get_tasks db0) = 4 \<and>
   check_deadlines no_backend now0 db0 =
     ([[Notify ''Task Overdue!'' (task_msg ''report'' '' is overdue!'') 10]], Some SinkFailure) \<and>
   check_deadlines delivering now0 db0 =
     ([[Notify ''Task Overdue!'' (task_msg ''report'' '' is overdue!'') 10,
        StWarning (task_msg ''report'' '' is overdue!'')],
       [Notify ''Task Notification'' (task_msg ''call'' '' notification time reached!'') 10,
        StInfo (task_msg ''call'' '' notification time reached!''),
        Notify ''Task Deadline Approaching'' (task_msg ''call'' '' deadline is approaching!'') 10,
        StInfo (task_msg ''call'' '' deadline is approaching!'')],
       [], []], None)"
  by (simp add: db0_def get_tasks_def check_deadlines_def check_task_def example_defs
        strptime_examples and_then_def notify_def skip_def time_defs)

section \<open>Properties of the filter\<close>

lemma nearest_loop_filter:
  "\<forall>t\<in>set ts. completed t = 0 \<longrightarrow> strptime (deadline t) \<noteq> None \<Longrightarrow>
   nearest_loop now filtered ts = Inr (filtered @ filter (nearest_deadline_spec now) ts)"
  by (induction ts arbitrary: filtered) (auto simp: nearest_deadline_spec_def)

text \<open>
  C6: each view returns its projection of the snapshot, in the order of the snapshot.
  All tasks: the input itself. Completed: the rows with \<open>completed = 1\<close>, whatever
  their deadline. Nearest deadline, on rows whose deadlines parse: the rows that are not
  completed and whose deadline is less than 24 hours after \<open>now\<close>; a row that is
  already overdue (negative difference) is among them.
\<close>

theorem filter_tasks_modes:
  "filter_tasks now tasks ''All Tasks'' = Inr tasks \<and>
   filter_tasks now tasks ''View Completed Tasks'' = Inr (filter (\<lambda>t. completed t = 1) tasks) \<and>
   ((\<forall>t\<in>set tasks. completed t = 0 \<longrightarrow> strptime (deadline t) \<noteq> None) \<longrightarrow>
    filter_tasks now tasks ''View Nearest Deadline Tasks (within 1 day)'' =
      Inr (filter (nearest_deadline_spec now) tasks) \<and>
    (\<forall>t\<in>set tasks. \<forall>d. completed t = 0 \<and> strptime (deadline t) = Some d \<and> dt_sub d now < 0 \<longrightarrow>
       t \<in> set (filter (nearest_deadline_spec now) tasks)))"
  by (simp add: filter_tasks_def nearest_loop_filter nearest_deadline_spec_def days_def)

theorem filter_tasks_modes_witness:
  "filter_tasks now0 (get_tasks db0) ''All Tasks'' =
     Inr [task_overdue, task_soon, task_done, task_later] \<and>
   filter_tasks now0 (get_tasks db0) ''View Completed Tasks'' = Inr [task_done] \<and>
   filter_tasks now0 (get_tasks db0) ''View Nearest Deadline Tasks (within 1 day)'' =
     Inr [task_overdue, task_soon]"
proof -
  have wf: "\<forall>t\<in>set (get_tasks db0). completed t = 0 \<longrightarrow> strptime (deadline t) \<noteq> None"
    using db0_well_formed by blast
  have c: "filter (\<lambda>t. completed t = 1) (get_tasks db0) = [task_done]"
    by (simp add: db0_rows example_defs)
  have n: "filter (nearest_deadline_spec now0) (get_tasks db0) = [task_overdue, task_soon]"
    by (simp add: db0_rows example_defs strptime_examples nearest_deadline_spec_def time_defs)
  from filter_tasks_modes [of now0 "get_tasks db0"] wf c n show ?thesis
    by (simp add: db0_rows)
qed

text \<open>
  C10: for every task list and every view mode other than the two recognised filter
  strings, the filter returns its input unchanged; there is no error branch for an
  unknown mode.
\<close>

theorem filter_tasks_unrecognized_identity:
  "filter_option \<noteq> ''View Completed Tasks'' \<Longrightarrow>
   filter_option \<noteq> ''View Nearest Deadline Tasks (within 1 day)'' \<Longrightarrow>
   filter_tasks now tasks filter_option = Inr tasks"
  by (simp add: filter_tasks_def)

theorem filter_tasks_unrecognized_identity_witness:
  "''All Tasks'' \<noteq> ''View Completed Tasks'' \<and>
   ''All Tasks'' \<noteq> ''View Nearest Deadline Tasks (within 1 day)'' \<and>
   filter_tasks now0 [task_overdue, task_done] ''All Tasks'' = Inr [task_overdue, task_done]"
  using filter_tasks_unrecognized_identity [of "''All Tasks''" now0 "[task_overdue, task_done]"]
  by simp

section \<open>Properties of the form\<close>

text \<open>
  C7: a submission with an empty name, an empty assigner, an empty designation, a
  deadline before \<open>now\<close> or a notify time before \<open>now\<close> is rejected with an
  error message: no task is created and the store is the one before the attempt.
\<close>

theorem main_submitted_rejects:
  assumes "nm = [] \<or> ab = [] \<or> dg = [] \<or>
           dt_less (combine deadline_date deadline_time) now \<or>
           dt_less (combine notify_date notify_time_val) now"
  shows "fst (main_submitted now db nm ab dg pr deadline_date deadline_time notify_date notify_time_val) = db \<and>
         (\<exists>msg. snd (main_submitted now db nm ab dg pr deadline_date deadline_time notify_date
                       notify_time_val) = StError msg)"
  using assms by (auto simp: main_submitted_def Let_def)

theorem main_submitted_rejects_witness:
  "dt_less (combine \<lparr>d_year = 2023, d_month = 12, d_day = 31\<rparr>
              \<lparr>t_hour = 23, t_minute = 55, t_second = 0, t_microsecond = 0\<rparr>) now0 \<and>
   fst (main_submitted now0 db0 ''plan'' ''Bob'' ''CTO'' ''Low''
      \<lparr>d_year = 2023, d_month = 12, d_day = 31\<rparr>
      \<lparr>t_hour = 23, t_minute = 55, t_second = 0, t_microsecond = 0\<rparr>
      \<lparr>d_year = 2024, d_month = 1, d_day = 2\<rparr>
      \<lparr>t_hour = 9, t_minute = 0, t_second = 0, t_microsecond = 0\<rparr>) = db0"
proof -
  let ?dd = "\<lparr>d_year = 2023, d_month = 12, d_day = 31\<rparr>"
  let ?dt = "\<lparr>t_hour = 23, t_minute = 55, t_second = 0, t_microsecond = 0\<rparr>"
  have past: "dt_less (combine ?dd ?dt) now0"
    by (simp add: combine_def dt_less_def dt_fields_def now0_def)
  then have h: "''plan'' = [] \<or> ''Bob'' = [] \<or> ''CTO'' = [] \<or> dt_less (combine ?dd ?dt) now0 \<or>
      dt_less (combine \<lparr>d_year = 2024, d_month = 1, d_day = 2\<rparr>
        \<lparr>t_hour = 9, t_minute = 0, t_second = 0, t_microsecond = 0\<rparr>) now0"
    by blast
  from main_submitted_rejects [OF h, of db0 "''Low''"] past show ?thesis
    by blast
qed

section \<open>Properties of the scheduler start\<close>

lemma init_scheduler_started: "started (init_scheduler sid p) = insert sid (started p)"
  by (auto simp: init_scheduler_def started_def)

lemma init_scheduler_triggers:
  "triggers (init_scheduler sid p) = (if sid \<in> started p then triggers p else triggers p + 1)"
  by (simp add: init_scheduler_def started_def)

lemma fold_init_scheduler_triggers:
  "finite (started p) \<Longrightarrow>
   triggers (fold init_scheduler sids p) = triggers p + card (set sids - started p)"
proof (induction sids arbitrary: p)
  case Nil
  then show ?case by simp
next
  case (Cons sid sids)
  let ?q = "init_scheduler sid p"
  have "finite (started ?q)"
    using Cons.prems by (simp add: init_scheduler_started)
  then have step: "triggers (fold init_scheduler (sid # sids) p) =
      triggers ?q + card (set sids - insert sid (started p))"
    using Cons.IH [of ?q] by (simp add: init_scheduler_started)
  show ?case
  proof (cases "sid \<in> started p")
    case True
    then have "insert sid (started p) = started p" "set (sid # sids) - started p = set sids - started p"
      by auto
    with True step show ?thesis
      by (simp only: init_scheduler_triggers if_True)
  next
    case False
    have eq: "set (sid # sids) - started p = insert sid (set sids - insert sid (started p))"
      using False by auto
    have "sid \<notin> set sids - insert sid (started p)" "finite (set sids - insert sid (started p))"
      by simp_all
    then have "card (insert sid (set sids - insert sid (started p))) =
        Suc (card (set sids - insert sid (started p)))"
      by (metis card_insert_disjoint)
    then have "card (set (sid # sids) - started p) = Suc (card (set sids - insert sid (started p)))"
      by (simp only: eq)
    with False step show ?thesis
      by (simp only: init_scheduler_triggers if_False)
  qed
qed

text \<open>
  What the guard does achieve: however often a session runs \<^verbatim>\<open>init_scheduler\<close>,
  it starts one trigger, so a fresh process has one trigger for each session it has had.
\<close>

lemma init_scheduler_once_per_session:
  "triggers (run_scripts sids fresh_process) = card (set sids) \<and>
   triggers (run_scripts (replicate n sid) fresh_process) \<le> 1"
proof -
  have "triggers (run_scripts xs fresh_process) = card (set xs)" for xs
    using fold_init_scheduler_triggers [of fresh_process xs]
    by (simp add: run_scripts_def fresh_process_def started_def)
  then show ?thesis
    by (cases n) (simp_all add: card_insert_if)
qed

text \<open>
  C9 asks for at most one recurring trigger in a process, also across sessions. The
  guard of \<^verbatim>\<open>init_scheduler\<close> is a key of the session's own dictionary: a second
  run of the same session starts nothing, but a second session of the same process
  starts a second trigger.
\<close>

theorem init_scheduler_second_session:
  "triggers (run_scripts [1, 1] fresh_process) = 1 \<and>
   triggers (run_scripts [1, 2] fresh_process) = 2"
  by (simp add: run_scripts_def init_scheduler_def fresh_process_def)

end
